theory Spec2Isabelle
  imports Main
begin

section \<open>Sentiment\_NLP: the document registry, word counting and filtering\<close>

text \<open>
  A shallow embedding of \<^verbatim>\<open>src/Sentiment_NLP.py\<close> (class \<^verbatim>\<open>SentimentNLP\<close>).

  \<^item> A Python \<^verbatim>\<open>dict\<close> keeps its keys in insertion order, and the top-k filter breaks
    ties by that order, so a dictionary is an association list: the order of the list
    is the insertion order, and the keys of a dictionary are distinct (\<open>is_dict\<close>).
  \<^item> \<^verbatim>\<open>self.data\<close> is a \<^verbatim>\<open>defaultdict(dict)\<close>: reading a missing statistic key inserts
    an empty dictionary under it (\<open>getitem_default\<close>).
  \<^item> Methods that mutate \<^verbatim>\<open>self.data\<close> take the registry and return the registry they
    leave behind, together with the exception they raised, if any.
  \<^item> The libraries the program calls (NLTK's stop-word list, lemmatizer and sentiment
    analyzer, the file system, the plotting libraries) are parameters.
  \<^item> A string is a list of characters; a character is a code point below 256.
\<close>

subsection \<open>Exceptions and values\<close>

datatype py_error = ValidationError | AttributeError | KeyError | TypeError | OSError

text \<open>
  The values a parser stores for a document: a word-count mapping (word to count), a
  mapping of named polarity scores, or a string. The type \<open>'f\<close> stands for Python's
  \<^verbatim>\<open>float\<close>: the program only stores, copies and compares scores, and where it
  compares them (\<^verbatim>\<open>sorted\<close> in \<open>get_wordcount\<close>) the order of \<open>'f\<close> is the order of the
  floats; NaN is not modelled.
\<close>

datatype 'f stat =
    Counts "(string \<times> int) list"
  | Scores "(string \<times> 'f) list"
  | Text string

type_synonym 'f results = "(string \<times> 'f stat) list"

type_synonym 'f registry = "(string \<times> (string \<times> 'f stat) list) list"

subsection \<open>Dictionaries\<close>

definition is_dict :: "('k \<times> 'v) list \<Rightarrow> bool" where
  "is_dict d = distinct (map fst d)"

text \<open>\<^verbatim>\<open>d[k] = v\<close>: an existing key keeps its position, a new key goes to the end.\<close>

fun setitem :: "'k \<Rightarrow> 'v \<Rightarrow> ('k \<times> 'v) list \<Rightarrow> ('k \<times> 'v) list" where
  "setitem k v [] = [(k, v)]"
| "setitem k v (p # d) = (if fst p = k then (k, v) # d else p # setitem k v d)"

text \<open>\<^verbatim>\<open>dict(pairs)\<close>: the pairs are stored one after the other.\<close>

definition dict_of :: "('k \<times> 'v) list \<Rightarrow> ('k \<times> 'v) list" where
  "dict_of pairs = foldl (\<lambda>d (k, v). setitem k v d) [] pairs"

text \<open>
  \<^verbatim>\<open>self.data[k]\<close> on the \<^verbatim>\<open>defaultdict(dict)\<close>: the value under \<open>k\<close>, and the registry
  after the read (a missing key is inserted with an empty dictionary).
\<close>

definition getitem_default ::
  "string \<Rightarrow> 'f registry \<Rightarrow> (string \<times> 'f stat) list \<times> 'f registry" where
  "getitem_default k data =
     (case map_of data k of
        Some inner \<Rightarrow> (inner, data)
      | None \<Rightarrow> ([], data @ [(k, [])]))"

subsection \<open>Characters and strings\<close>

definition is_alpha :: "char \<Rightarrow> bool" where
  "is_alpha c = (let n = (of_char c :: nat) in (65 \<le> n \<and> n \<le> 90) \<or> (97 \<le> n \<and> n \<le> 122))"

definition is_lower :: "char \<Rightarrow> bool" where
  "is_lower c = (let n = (of_char c :: nat) in 97 \<le> n \<and> n \<le> 122)"

text \<open>Whitespace as \<^verbatim>\<open>str.split()\<close> sees it, among the code points below 256.\<close>

definition is_space :: "char \<Rightarrow> bool" where
  "is_space c =
     (let n = (of_char c :: nat) in (9 \<le> n \<and> n \<le> 13) \<or> (28 \<le> n \<and> n \<le> 32) \<or> n = 133 \<or> n = 160)"

text \<open>
  \<^verbatim>\<open>str.lower()\<close> on one character. In \<open>preprocess\<close> it only meets ASCII letters
  and spaces, what \<^verbatim>\<open>re.sub('[^a-zA-Z]', ' ', ...)\<close> leaves.
\<close>

definition to_lower :: "char \<Rightarrow> char" where
  "to_lower c =
     (let n = (of_char c :: nat) in if 65 \<le> n \<and> n \<le> 90 then char_of (n + 32) else c)"

text \<open>
  \<^verbatim>\<open>content.split()\<close>: the maximal runs of characters that are not whitespace.
  \<open>tok\<close> is the run being read.
\<close>

fun split_from :: "string \<Rightarrow> string \<Rightarrow> string list" where
  "split_from tok [] = (if tok = [] then [] else [tok])"
| "split_from tok (c # cs) =
     (if is_space c then (if tok = [] then split_from [] cs else tok # split_from [] cs)
      else split_from (tok @ [c]) cs)"

definition py_split :: "string \<Rightarrow> string list" where
  "py_split s = split_from [] s"

text \<open>\<^verbatim>\<open>' '.join(words)\<close>\<close>

fun join_sp :: "string list \<Rightarrow> string" where
  "join_sp [] = []"
| "join_sp [w] = w"
| "join_sp (w # ws) = w @ CHR '' '' # join_sp ws"

subsection \<open>The libraries, as parameters\<close>

record 'f env =
  read_file :: "string \<Rightarrow> py_error + string"
  stop_words :: "string list"
  lemmatize :: "string \<Rightarrow> string"
  polarity_scores :: "string \<Rightarrow> (string \<times> 'f) list"
  check_default_parser :: "string \<Rightarrow> py_error option"
  check_get_wordcount :: "string list option \<Rightarrow> int \<Rightarrow> py_error option"

text \<open>
  \<open>read_file\<close> is \<^verbatim>\<open>open(filename).read()\<close>, \<open>stop_words\<close> is
  \<^verbatim>\<open>stopwords.words('english')\<close>, \<open>lemmatize\<close> is \<^verbatim>\<open>WordNetLemmatizer().lemmatize\<close>,
  \<open>polarity_scores\<close> is \<^verbatim>\<open>SentimentIntensityAnalyzer().polarity_scores\<close>.
  \<open>check_default_parser\<close> and \<open>check_get_wordcount\<close> are the argument checks
  \<^verbatim>\<open>NLPError._default_parser\<close> and \<^verbatim>\<open>NLPError.get_wordcount\<close> of the module
  \<^verbatim>\<open>exception_class\<close>: \<open>None\<close> when the check passes, the exception otherwise.
\<close>

subsection \<open>preprocess and count\<close>

definition preprocess :: "'f env \<Rightarrow> string \<Rightarrow> string" where
  "preprocess e content =
     (let text_data = map (\<lambda>c. if is_alpha c then c else CHR '' '') content;
          text_data = map to_lower text_data;
          text_data = py_split text_data;
          text_data = [lemmatize e word. word \<leftarrow> text_data, word \<notin> set (stop_words e)]
      in join_sp text_data)"

text \<open>The steps of \<open>preprocess\<close> in the words of the specification (section 4.1).\<close>

definition spec_replace_non_alpha :: "string \<Rightarrow> string" where
  "spec_replace_non_alpha s = map (\<lambda>c. if is_alpha c then c else CHR '' '') s"

definition spec_preprocess :: "'f env \<Rightarrow> string \<Rightarrow> string" where
  "spec_preprocess e t =
     join_sp (map (lemmatize e)
       (filter (\<lambda>w. w \<notin> set (stop_words e))
         (py_split (map to_lower (spec_replace_non_alpha t)))))"

text \<open>The loop of \<open>count\<close>: one step per word, \<open>counts\<close> is the dictionary so far.\<close>

fun count_loop :: "string list \<Rightarrow> (string \<times> int) list \<Rightarrow> (string \<times> int) list" where
  "count_loop [] counts = counts"
| "count_loop (word # words) counts =
     count_loop words
       (case map_of counts word of
          Some n \<Rightarrow> setitem word (n + 1) counts
        | None \<Rightarrow> setitem word 1 counts)"

definition count :: "string \<Rightarrow> (string \<times> int) list" where
  "count content = count_loop (py_split content) []"

subsection \<open>Registration\<close>

text \<open>
  \<open>default_parser\<close> is \<^verbatim>\<open>_default_parser\<close>: check the argument, read the file, clean
  it, count the words and score the sentiment.
\<close>

definition default_parser :: "'f env \<Rightarrow> string \<Rightarrow> py_error + 'f results" where
  "default_parser e filename =
     (case check_default_parser e filename of
        Some err \<Rightarrow> Inl err
      | None \<Rightarrow>
          (case read_file e filename of
             Inl err \<Rightarrow> Inl err
           | Inr content \<Rightarrow>
               (let content = preprocess e content;
                    wordcounts = count content
                in Inr [(''wordcount'', Counts wordcounts),
                        (''sentiment'', Scores (polarity_scores e content)),
                        (''raw_text'', Text content)])))"

text \<open>
  \<open>save_results\<close> is \<^verbatim>\<open>_save_results\<close>: for every pair \<open>(k, v)\<close> of the results,
  \<^verbatim>\<open>self.data[k][label] = v\<close>.
\<close>

fun save_results :: "string \<Rightarrow> 'f results \<Rightarrow> 'f registry \<Rightarrow> 'f registry" where
  "save_results label [] data = data"
| "save_results label ((k, v) # results) data =
     save_results label results
       (let (inner, data1) = getitem_default k data
        in setitem k (setitem label v inner) data1)"

text \<open>
  The \<^verbatim>\<open>parser\<close> argument of \<open>load_text\<close>: \<^verbatim>\<open>None\<close>, a function from the file name
  to a result mapping (it may raise), or an object that cannot be called.
\<close>

datatype 'f parser_arg =
    NoParser
  | Callable "string \<Rightarrow> py_error + 'f results"
  | NotCallable

text \<open>
  Modelled from the spec: \<^verbatim>\<open>NLPError.load_text\<close>, the argument check of \<open>load_text\<close>,
  is in the module \<^verbatim>\<open>exception_class\<close>, which is not among the sources. The
  specification (section 4.4): registration "fails with ValidationError if filename is
  empty/absent, [...] or if parser is provided but not invocable"; a label that is
  already registered is not an error. The file name and the label are \<open>None\<close> when absent.
\<close>

definition NLPError_load_text ::
  "string option \<Rightarrow> string option \<Rightarrow> 'f parser_arg \<Rightarrow> py_error option" where
  "NLPError_load_text filename label parser =
     (case filename of
        None \<Rightarrow> Some ValidationError
      | Some fname \<Rightarrow>
          if fname = [] then Some ValidationError
          else (case parser of NotCallable \<Rightarrow> Some ValidationError | _ \<Rightarrow> None))"

text \<open>
  \<open>load_text\<close>: the exception raised, if any, and the registry after the call. The
  branches for an absent file name and for a parser that cannot be called are behind the
  argument check; they are written out as the \<^verbatim>\<open>TypeError\<close> Python raises there.
\<close>

definition load_text ::
  "'f env \<Rightarrow> string option \<Rightarrow> string option \<Rightarrow> 'f parser_arg \<Rightarrow> 'f registry
     \<Rightarrow> py_error option \<times> 'f registry" where
  "load_text e filename label parser data =
     (case NLPError_load_text filename label parser of
        Some err \<Rightarrow> (Some err, data)
      | None \<Rightarrow>
          (case filename of
             None \<Rightarrow> (Some TypeError, data)
           | Some fname \<Rightarrow>
               (case (case parser of
                        NoParser \<Rightarrow> default_parser e fname
                      | Callable p \<Rightarrow> p fname
                      | NotCallable \<Rightarrow> Inl TypeError) of
                  Inl err \<Rightarrow> (Some err, data)
                | Inr results \<Rightarrow>
                    (None, save_results (case label of None \<Rightarrow> fname | Some l \<Rightarrow> l) results data))))"

subsection \<open>Filtering the word counts\<close>

text \<open>
  \<^verbatim>\<open>sorted(items, key=..., reverse=True)\<close>: Python's sort is stable, and with
  \<^verbatim>\<open>reverse=True\<close> equal keys still keep their original order (the list is reversed,
  sorted and reversed again).
\<close>

definition sorted_reverse :: "('a \<Rightarrow> 'b::linorder) \<Rightarrow> 'a list \<Rightarrow> 'a list" where
  "sorted_reverse key xs = rev (sort_key key (rev xs))"

text \<open>\<^verbatim>\<open>xs[:k]\<close>: a negative \<open>k\<close> counts from the end.\<close>

definition slice_to :: "int \<Rightarrow> 'a list \<Rightarrow> 'a list" where
  "slice_to k xs = (if 0 \<le> k then take (nat k) xs else take (length xs - nat (- k)) xs)"

text \<open>\<^verbatim>\<open>dict(sorted(d.items(), key=lambda x: x[1], reverse=True)[:k])\<close>\<close>

definition top_items :: "int \<Rightarrow> ('k \<times> 'v::linorder) list \<Rightarrow> ('k \<times> 'v) list" where
  "top_items k items = dict_of (slice_to k (sorted_reverse snd items))"

fun top_stat :: "int \<Rightarrow> ('f::linorder) stat \<Rightarrow> py_error + 'f stat" where
  "top_stat k (Counts m) = Inr (Counts (top_items k m))"
| "top_stat k (Scores m) = Inr (Scores (top_items k m))"
| "top_stat k (Text s) = Inl AttributeError"

text \<open>
  The inner loop of the word-list branch: \<^verbatim>\<open>if key in word_list: temp_dict[key] = value\<close>.
\<close>

fun select_loop :: "string list \<Rightarrow> (string \<times> 'v) list \<Rightarrow> (string \<times> 'v) list \<Rightarrow> (string \<times> 'v) list" where
  "select_loop word_list [] temp_dict = temp_dict"
| "select_loop word_list ((key, val) # items) temp_dict =
     select_loop word_list items
       (if key \<in> set word_list then setitem key val temp_dict else temp_dict)"

fun select_stat :: "string list \<Rightarrow> 'f stat \<Rightarrow> py_error + 'f stat" where
  "select_stat word_list (Counts m) = Inr (Counts (select_loop word_list m []))"
| "select_stat word_list (Scores m) = Inr (Scores (select_loop word_list m []))"
| "select_stat word_list (Text s) = Inl AttributeError"

text \<open>
  \<^verbatim>\<open>for filename in wordcount_dict: wordcount_dict[filename] = body(wordcount_dict[filename])\<close>,
  the loop of both branches. A value that has no \<^verbatim>\<open>items()\<close> raises; what the loop
  stored before stays stored.
\<close>

fun filter_loop ::
  "('f stat \<Rightarrow> py_error + 'f stat) \<Rightarrow> string list \<Rightarrow> (string \<times> 'f stat) list
     \<Rightarrow> py_error option \<times> (string \<times> 'f stat) list" where
  "filter_loop body [] wordcount_dict = (None, wordcount_dict)"
| "filter_loop body (filename # rest) wordcount_dict =
     (case map_of wordcount_dict filename of
        None \<Rightarrow> (Some KeyError, wordcount_dict)
      | Some v \<Rightarrow>
          (case body v of
             Inl err \<Rightarrow> (Some err, wordcount_dict)
           | Inr temp_dict \<Rightarrow> filter_loop body rest (setitem filename temp_dict wordcount_dict)))"

text \<open>
  \<open>get_wordcount\<close>: the exception raised, if any, and the registry after the call.
  \<^verbatim>\<open>wordcount_dict\<close> is the dictionary object stored under \<^verbatim>\<open>"wordcount"\<close>, so what the
  loop stores is in the registry whether or not the last assignment is reached.
\<close>

definition get_wordcount ::
  "('f::linorder) env \<Rightarrow> string list option \<Rightarrow> int \<Rightarrow> 'f registry \<Rightarrow> py_error option \<times> 'f registry" where
  "get_wordcount e word_list k data =
     (case check_get_wordcount e word_list k of
        Some err \<Rightarrow> (Some err, data)
      | None \<Rightarrow>
          (let (wordcount_dict, data1) = getitem_default ''wordcount'' data;
               (raised, wordcount_dict') =
                  (case word_list of
                     None \<Rightarrow> filter_loop (top_stat k) (map fst wordcount_dict) wordcount_dict
                   | Some ws \<Rightarrow> filter_loop (select_stat ws) (map fst wordcount_dict) wordcount_dict)
           in (raised, setitem ''wordcount'' wordcount_dict' data1)))"

subsection \<open>The visualization adapters\<close>

text \<open>
  Each adapter returns what it hands to the plotting library (or the exception raised
  before that) and the registry after the call.
\<close>

definition rows_of :: "string \<Rightarrow> (string \<times> int) list \<Rightarrow> (string \<times> string) list" where
  "rows_of filename items = concat (map (\<lambda>(key, val). replicate (nat val) (filename, key)) items)"

fun sankey_rows :: "(string \<times> 'f stat) list \<Rightarrow> py_error + (string \<times> string) list" where
  "sankey_rows [] = Inr []"
| "sankey_rows ((filename, Counts m) # rest) =
     (case sankey_rows rest of Inl err \<Rightarrow> Inl err | Inr rows \<Rightarrow> Inr (rows_of filename m @ rows))"
| "sankey_rows ((filename, Scores m) # rest) = (if m = [] then sankey_rows rest else Inl TypeError)"
| "sankey_rows ((filename, Text s) # rest) = Inl AttributeError"

definition wordcount_sankey ::
  "('f::linorder) env \<Rightarrow> string list option \<Rightarrow> int \<Rightarrow> 'f registry
     \<Rightarrow> (py_error + (string \<times> string) list) \<times> 'f registry" where
  "wordcount_sankey e word_list k data =
     (case get_wordcount e word_list k data of
        (Some err, data') \<Rightarrow> (Inl err, data')
      | (None, data') \<Rightarrow>
          (let (wordcount_dict, data2) = getitem_default ''wordcount'' data'
           in (sankey_rows wordcount_dict, data2)))"

definition second_viz :: "'f registry \<Rightarrow> (string list \<times> 'f stat list) \<times> 'f registry" where
  "second_viz data =
     (let (text_content, data1) = getitem_default ''raw_text'' data;
          text_lst = map snd text_content;
          filename_lst = map fst text_content
      in ((filename_lst, text_lst), data1))"

text \<open>\<^verbatim>\<open>self.data["sentiment"][filename][name]\<close>: a count or a score.\<close>

fun score_of :: "string \<Rightarrow> 'f stat \<Rightarrow> py_error + (int + 'f)" where
  "score_of name (Counts m) = (case map_of m name of None \<Rightarrow> Inl KeyError | Some n \<Rightarrow> Inr (Inl n))"
| "score_of name (Scores m) = (case map_of m name of None \<Rightarrow> Inl KeyError | Some x \<Rightarrow> Inr (Inr x))"
| "score_of name (Text s) = Inl TypeError"

fun sentiment_lists ::
  "(string \<times> 'f stat) list \<Rightarrow> py_error + ((int + 'f) list \<times> (int + 'f) list)" where
  "sentiment_lists [] = Inr ([], [])"
| "sentiment_lists ((filename, v) # rest) =
     (case score_of ''pos'' v of
        Inl err \<Rightarrow> Inl err
      | Inr p \<Rightarrow>
          (case score_of ''neg'' v of
             Inl err \<Rightarrow> Inl err
           | Inr n \<Rightarrow>
               (case sentiment_lists rest of
                  Inl err \<Rightarrow> Inl err
                | Inr (pos_lst, neg_lst) \<Rightarrow> Inr (p # pos_lst, n # neg_lst))))"

definition third_viz ::
  "'f registry \<Rightarrow> (py_error + (string list \<times> (int + 'f) list \<times> (int + 'f) list)) \<times> 'f registry" where
  "third_viz data =
     (let (sentiment, data1) = getitem_default ''sentiment'' data
      in (case sentiment_lists sentiment of
            Inl err \<Rightarrow> (Inl err, data1)
          | Inr (pos_lst, neg_lst) \<Rightarrow> (Inr (map fst sentiment, pos_lst, neg_lst), data1)))"

subsection \<open>Predicates and sample inputs of the properties\<close>

text \<open>A word: a non-empty string of the letters a to z.\<close>

definition is_word :: "string \<Rightarrow> bool" where
  "is_word w = (w \<noteq> [] \<and> list_all is_lower w)"

text \<open>
  What the properties of \<open>preprocess\<close> take from the lemmatizer: the lemma of a word is
  a word.
\<close>

definition lemmatizer_keeps_words :: "'f env \<Rightarrow> bool" where
  "lemmatizer_keeps_words e = (\<forall>w. is_word w \<longrightarrow> is_word (lemmatize e w))"

text \<open>
  A small environment: one readable file, three stop words, a lemmatizer that knows one
  plural, constant polarity scores, and an argument check of \<open>get_wordcount\<close> that wants
  a positive \<open>k\<close>.
\<close>

definition env1 :: "int env" where
  "env1 = \<lparr> read_file = (\<lambda>f. if f = ''a.txt'' then Inr ''The cat sat on the mat'' else Inl OSError),
     stop_words = [''the'', ''on'', ''in''],
     lemmatize = (\<lambda>w. if w = ''cats'' then ''cat'' else w),
     polarity_scores = (\<lambda>s. [(''neg'', 0), (''neu'', 1), (''pos'', 0), (''compound'', 0)]),
     check_default_parser = (\<lambda>f. None),
     check_get_wordcount = (\<lambda>ws k. if k \<le> 0 then Some ValidationError else None) \<rparr>"

text \<open>\<^verbatim>\<open>registry[k][label]\<close>, read without inserting: \<open>None\<close> when the key or the label is missing.\<close>

definition stat_of :: "'f registry \<Rightarrow> string \<Rightarrow> string \<Rightarrow> 'f stat option" where
  "stat_of data k label = (case map_of data k of None \<Rightarrow> None | Some inner \<Rightarrow> map_of inner label)"

text \<open>The label \<open>load_text\<close> registers under: the file name when no label is given.\<close>

definition label_of :: "string \<Rightarrow> string option \<Rightarrow> string" where
  "label_of fname label = (case label of None \<Rightarrow> fname | Some l \<Rightarrow> l)"

text \<open>What the parser chosen by \<open>load_text\<close> returns for a file name.\<close>

definition parser_result :: "'f env \<Rightarrow> 'f parser_arg \<Rightarrow> string \<Rightarrow> py_error + 'f results" where
  "parser_result e parser fname =
     (case parser of
        NoParser \<Rightarrow> default_parser e fname
      | Callable p \<Rightarrow> p fname
      | NotCallable \<Rightarrow> Inl TypeError)"

text \<open>Two custom parsers: the first returns a statistic the default parser does not.\<close>

definition parser1 :: "string \<Rightarrow> py_error + int results" where
  "parser1 fname = Inr [(''wordcount'', Counts [(''dog'', 2)]), (''length'', Text ''2'')]"

definition parser2 :: "string \<Rightarrow> py_error + int results" where
  "parser2 fname = Inr [(''wordcount'', Counts [(''park'', 1)])]"

text \<open>A registry with two documents.\<close>

definition reg1 :: "int registry" where
  "reg1 =
     [(''wordcount'',
        [(''a.txt'', Counts [(''cat'', 2), (''sat'', 1), (''mat'', 2), (''dog'', 3)]),
         (''b.txt'', Counts [(''dog'', 1), (''park'', 1)])]),
      (''sentiment'',
        [(''a.txt'', Scores [(''neg'', 0), (''neu'', 1), (''pos'', 0), (''compound'', 0)]),
         (''b.txt'', Scores [(''neg'', 0), (''neu'', 1), (''pos'', 0), (''compound'', 0)])]),
      (''raw_text'',
        [(''a.txt'', Text ''cat sat mat dog dog cat mat dog''),
         (''b.txt'', Text ''dog park'')])]"

text \<open>The mapping stored under \<^verbatim>\<open>"wordcount"\<close> (label to statistic), empty when the key is missing.\<close>

definition wordcounts :: "'f registry \<Rightarrow> (string \<times> 'f stat) list" where
  "wordcounts data = (case map_of data ''wordcount'' of None \<Rightarrow> [] | Some wd \<Rightarrow> wd)"

text \<open>
  The data model of the specification for the word counts: labels are distinct, and the
  statistic of every label is a word-count mapping with distinct words.
\<close>

definition wordcounts_ok :: "'f registry \<Rightarrow> bool" where
  "wordcounts_ok data =
     (is_dict (wordcounts data)
      \<and> list_all (\<lambda>(label, v). case v of Counts m \<Rightarrow> is_dict m | _ \<Rightarrow> False) (wordcounts data))"

text \<open>\<open>before_in xs x y\<close>: \<open>y\<close> occurs in \<open>xs\<close> after the first \<open>x\<close>.\<close>

fun before_in :: "'a list \<Rightarrow> 'a \<Rightarrow> 'a \<Rightarrow> bool" where
  "before_in [] x y = False"
| "before_in (z # zs) x y = (if z = x then y \<in> set zs else before_in zs x y)"

section \<open>Properties\<close>

subsection \<open>Dictionaries\<close>

lemma map_of_setitem: "map_of (setitem k v d) = (map_of d)(k \<mapsto> v)"
  by (induction d) (auto simp: fun_eq_iff)

lemma keys_setitem:
  "map fst (setitem k v d) = (if k \<in> set (map fst d) then map fst d else map fst d @ [k])"
  by (induction d) auto

lemma is_dict_Nil: "is_dict []"
  by (simp add: is_dict_def)

lemma is_dict_setitem: "is_dict d \<Longrightarrow> is_dict (setitem k v d)"
  by (simp add: is_dict_def keys_setitem)

lemma sum_setitem_old:
  "map_of d k = Some n \<Longrightarrow> sum_list (map snd (setitem k v d)) = sum_list (map snd d) - n + (v::int)"
  by (induction d) (auto split: if_splits)

lemma sum_setitem_new:
  "map_of d k = None \<Longrightarrow> sum_list (map snd (setitem k v d)) = sum_list (map snd d) + (v::int)"
  by (induction d) (auto split: if_splits)

subsection \<open>count\<close>

lemma count_loop_sum:
  "sum_list (map snd (count_loop ws counts)) = sum_list (map snd counts) + int (length ws)"
proof (induction ws arbitrary: counts)
  case Nil
  show ?case by simp
next
  case (Cons w ws)
  show ?case
  proof (cases "map_of counts w")
    case None
    then show ?thesis by (simp add: Cons.IH sum_setitem_new)
  next
    case (Some n)
    then show ?thesis by (simp add: Cons.IH sum_setitem_old)
  qed
qed

lemma count_loop_lookup:
  "map_of (count_loop ws counts) w =
     (case map_of counts w of
        None \<Rightarrow> if w \<in> set ws then Some (int (count_list ws w)) else None
      | Some n \<Rightarrow> Some (n + int (count_list ws w)))"
proof (induction ws arbitrary: counts)
  case Nil
  show ?case by (simp split: option.splits)
next
  case (Cons x ws)
  show ?case
    by (cases "map_of counts x") (auto simp: Cons.IH map_of_setitem split: option.splits)
qed

lemma is_dict_count_loop: "is_dict counts \<Longrightarrow> is_dict (count_loop ws counts)"
  by (induction ws arbitrary: counts) (auto simp: is_dict_setitem split: option.splits)

text \<open>
  C5. For every string \<open>c\<close>, the values of \<open>count c\<close> add up to the number of tokens
  of \<open>c.split()\<close>, the value stored for a word is the number of times it occurs among
  the tokens, a word that does not occur has no entry, and no word has two entries.
\<close>

theorem count_sums_to_tokens:
  "sum_list (map snd (count c)) = int (length (py_split c))
   \<and> (\<forall>w. map_of (count c) w =
          (if w \<in> set (py_split c) then Some (int (count_list (py_split c) w)) else None))
   \<and> is_dict (count c)"
proof -
  have "is_dict (count c)"
    unfolding count_def using is_dict_Nil by (rule is_dict_count_loop)
  then show ?thesis by (simp add: count_def count_loop_sum count_loop_lookup)
qed

subsection \<open>preprocess\<close>

lemma is_space_blank: "is_space (CHR '' '')"
  by (simp add: is_space_def)

lemma lower_not_space: "is_lower c \<Longrightarrow> \<not> is_space c"
  by (auto simp: is_lower_def is_space_def Let_def)

lemma to_lower_alpha: "is_alpha c \<Longrightarrow> is_lower (to_lower c)"
  by (auto simp: is_alpha_def is_lower_def to_lower_def Let_def)

lemma to_lower_blank: "to_lower (CHR '' '') = CHR '' ''"
  by (simp add: to_lower_def)

lemma split_from_tokens:
  "\<forall>c\<in>set tok. \<not> is_space c \<Longrightarrow> w \<in> set (split_from tok s)
     \<Longrightarrow> w \<noteq> [] \<and> (\<forall>c\<in>set w. \<not> is_space c \<and> c \<in> set tok \<union> set s)"
proof (induction tok s rule: split_from.induct)
  case (1 tok)
  then show ?case by (auto split: if_splits)
next
  case (2 tok c cs)
  then show ?case by (fastforce split: if_splits)
qed

lemma split_from_append:
  "\<forall>c\<in>set w. \<not> is_space c \<Longrightarrow> split_from tok (w @ s) = split_from (tok @ w) s"
  by (induction w arbitrary: tok) auto

lemma split_join:
  "\<forall>w\<in>set ts. w \<noteq> [] \<and> (\<forall>c\<in>set w. \<not> is_space c) \<Longrightarrow> py_split (join_sp ts) = ts"
proof (induction ts rule: join_sp.induct)
  case 1
  show ?case by (simp add: py_split_def)
next
  case (2 w)
  then have "split_from [] (w @ []) = split_from w []"
    using split_from_append [of w "[]" "[]"] by simp
  with 2 show ?case by (simp add: py_split_def)
next
  case (3 w v ws)
  have "split_from [] (w @ CHR '' '' # join_sp (v # ws)) = split_from w (CHR '' '' # join_sp (v # ws))"
    using 3 split_from_append [of w "[]"] by simp
  also have "\<dots> = w # split_from [] (join_sp (v # ws))"
    using 3 by (simp add: is_space_blank)
  finally show ?case using 3 by (simp add: py_split_def)
qed

lemma comprehension_map_filter:
  "[f x. x \<leftarrow> xs, P x] = map f (filter P xs)"
  by (induction xs) auto

lemma preprocess_spec: "preprocess e t = spec_preprocess e t"
  by (simp add: preprocess_def spec_preprocess_def spec_replace_non_alpha_def
      comprehension_map_filter)

lemma cleaned_chars:
  "c \<in> set (map to_lower (spec_replace_non_alpha t)) \<Longrightarrow> is_lower c \<or> c = CHR '' ''"
  by (auto simp: spec_replace_non_alpha_def to_lower_alpha to_lower_blank)

lemma cleaned_tokens:
  assumes "w \<in> set (py_split (map to_lower (spec_replace_non_alpha t)))"
  shows "is_word w"
proof -
  let ?s = "map to_lower (spec_replace_non_alpha t)"
  have w: "w \<in> set (split_from [] ?s)"
    using assms by (simp add: py_split_def)
  have "w \<noteq> [] \<and> (\<forall>c\<in>set w. \<not> is_space c \<and> c \<in> set [] \<union> set ?s)"
    by (rule split_from_tokens [OF _ w]) simp
  then have ne: "w \<noteq> []" and ch: "\<And>c. c \<in> set w \<Longrightarrow> \<not> is_space c \<and> c \<in> set ?s"
    by auto
  have "is_lower c" if "c \<in> set w" for c
    using ch [OF that] cleaned_chars [of c t] is_space_blank by auto
  with ne show ?thesis by (simp add: is_word_def list_all_iff)
qed

lemma join_chars:
  "c \<in> set (join_sp ts) \<Longrightarrow> c = CHR '' '' \<or> (\<exists>w\<in>set ts. c \<in> set w)"
  by (induction ts rule: join_sp.induct) auto


lemma is_word_no_space: "is_word w \<Longrightarrow> w \<noteq> [] \<and> (\<forall>c\<in>set w. \<not> is_space c)"
  by (auto simp: is_word_def list_all_iff lower_not_space)

text \<open>
  C6. Provided the lemmatizer maps words to words: for every text \<open>t\<close>,
  \<open>preprocess e t\<close> is what the steps of the specification produce (replace every
  character outside a-z, A-Z by a blank, lowercase, split, drop the stop words,
  lemmatize, join with single blanks); its tokens are the lemmas of the tokens of \<open>t\<close>
  that are not stop words, in the order they have in \<open>t\<close>; every token is a non-empty
  string of lowercase letters; the tokens are separated by exactly one blank, with no
  blank at either end; and no character other than a lowercase letter or a blank occurs.
\<close>

theorem preprocess_clean:
  assumes "lemmatizer_keeps_words e"
  shows "preprocess e t = spec_preprocess e t
    \<and> py_split (preprocess e t) =
        map (lemmatize e) (filter (\<lambda>w. w \<notin> set (stop_words e))
          (py_split (map to_lower (spec_replace_non_alpha t))))
    \<and> list_all is_word (py_split (preprocess e t))
    \<and> join_sp (py_split (preprocess e t)) = preprocess e t
    \<and> list_all (\<lambda>c. is_lower c \<or> c = CHR '' '') (preprocess e t)"
proof -
  let ?toks = "py_split (map to_lower (spec_replace_non_alpha t))"
  let ?out = "map (lemmatize e) (filter (\<lambda>w. w \<notin> set (stop_words e)) ?toks)"
  have pre: "preprocess e t = join_sp ?out"
    by (simp add: preprocess_spec spec_preprocess_def)
  have words: "is_word w" if "w \<in> set ?out" for w
  proof -
    from that obtain u where "u \<in> set ?toks" and "w = lemmatize e u" by auto
    then show ?thesis
      using assms cleaned_tokens [of u t] by (simp add: lemmatizer_keeps_words_def)
  qed
  then have "\<forall>w\<in>set ?out. w \<noteq> [] \<and> (\<forall>c\<in>set w. \<not> is_space c)"
    using is_word_no_space by blast
  then have split: "py_split (join_sp ?out) = ?out"
    by (rule split_join)
  have chars: "is_lower c \<or> c = CHR '' ''" if "c \<in> set (join_sp ?out)" for c
    using join_chars [OF that] words by (auto simp: is_word_def list_all_iff)
  show ?thesis
    using pre split words chars by (simp add: preprocess_spec list_all_iff)
qed

theorem preprocess_clean_witness:
  "lemmatizer_keeps_words env1
   \<and> preprocess env1 ''The 2 Cats sat, on the mat!'' = ''cat sat mat''
   \<and> list_all is_word (py_split (preprocess env1 ''The 2 Cats sat, on the mat!''))
   \<and> join_sp (py_split (preprocess env1 ''The 2 Cats sat, on the mat!''))
       = preprocess env1 ''The 2 Cats sat, on the mat!''"
proof -
  have k: "lemmatizer_keeps_words env1"
    by (simp add: lemmatizer_keeps_words_def env1_def is_word_def is_lower_def)
  have v: "preprocess env1 ''The 2 Cats sat, on the mat!'' = ''cat sat mat''"
    by code_simp
  show ?thesis
    using k v preprocess_clean [OF k, of "''The 2 Cats sat, on the mat!''"] by blast
qed

subsection \<open>Registration\<close>

lemma stat_of_store:
  "stat_of (case getitem_default k data of (inner, data1) \<Rightarrow> setitem k (setitem label v inner) data1) k' l =
     (if k' = k \<and> l = label then Some v else stat_of data k' l)"
  by (auto simp: stat_of_def getitem_default_def map_of_setitem split: option.splits)

lemma stat_of_save_results:
  "is_dict results \<Longrightarrow>
   stat_of (save_results label results data) k l =
     (if l = label then (case map_of results k of Some v \<Rightarrow> Some v | None \<Rightarrow> stat_of data k l)
      else stat_of data k l)"
proof (induction results arbitrary: data)
  case Nil
  show ?case by simp
next
  case (Cons kv results)
  obtain k0 v0 where kv: "kv = (k0, v0)" by (cases kv)
  from Cons.prems have d: "is_dict results" and fresh: "map_of results k0 = None"
    by (auto simp: is_dict_def kv map_of_eq_None_iff)
  show ?case
    using fresh by (auto simp: kv Cons.IH [OF d] stat_of_store split: option.splits)
qed

lemma load_text_ok:
  assumes "fname \<noteq> []" and "parser_result e parser fname = Inr results"
  shows "load_text e (Some fname) label parser data =
           (None, save_results (label_of fname label) results data)"
  using assms
  by (cases parser) (auto simp: load_text_def NLPError_load_text_def parser_result_def label_of_def)

lemma default_parser_keys:
  "default_parser e fname = Inr results \<Longrightarrow>
     map fst results = [''wordcount'', ''sentiment'', ''raw_text''] \<and> is_dict results"
  by (auto simp: default_parser_def is_dict_def Let_def split: option.splits sum.splits)

text \<open>
  C7. \<open>load_text\<close> raises \<open>ValidationError\<close> when the file name is absent or empty, and
  when the parser is given but cannot be called; the registry is then the one before the
  call.
\<close>

theorem load_text_validation:
  "filename = None \<or> filename = Some [] \<or> parser = NotCallable \<Longrightarrow>
     load_text e filename label parser data = (Some ValidationError, data)"
  by (auto simp: load_text_def NLPError_load_text_def split: option.splits parser_arg.splits)

theorem load_text_validation_witness:
  "load_text env1 None (Some ''a.txt'') NoParser reg1 = (Some ValidationError, reg1)
   \<and> load_text env1 (Some []) None (Callable parser1) reg1 = (Some ValidationError, reg1)
   \<and> load_text env1 (Some ''a.txt'') None NotCallable reg1 = (Some ValidationError, reg1)"
  using load_text_validation [of None NoParser env1 "Some ''a.txt''" reg1]
    load_text_validation [of "Some []" "Callable parser1" env1 None reg1]
    load_text_validation [of "Some ''a.txt''" NotCallable env1 None reg1]
  by simp

text \<open>
  C9. Replacement is per statistic key. When a label is registered twice and the second
  result mapping has no entry for a key \<open>k\<close> that the first one had, the value the first
  registration stored under \<open>k\<close> is still the label's value after the second call; every
  key the second result mapping has holds the second value.
\<close>

theorem reregistration_keeps_omitted_key:
  assumes "f1 \<noteq> []" and "f2 \<noteq> []"
    and "parser_result e p1 f1 = Inr r1" and "parser_result e p2 f2 = Inr r2"
    and "is_dict r1" and "is_dict r2"
    and "label_of f1 l1 = label" and "label_of f2 l2 = label"
    and "map_of r1 k = Some v" and "map_of r2 k = None"
    and "load_text e (Some f1) l1 p1 data = (x1, data1)"
    and "load_text e (Some f2) l2 p2 data1 = (x2, data2)"
  shows "x1 = None \<and> x2 = None
    \<and> stat_of data1 k label = Some v
    \<and> stat_of data2 k label = Some v
    \<and> (\<forall>k' v'. map_of r2 k' = Some v' \<longrightarrow> stat_of data2 k' label = Some v')"
proof -
  have 1: "x1 = None" "data1 = save_results label r1 data"
    using assms load_text_ok [of f1 e p1 r1 l1 data] by auto
  have 2: "x2 = None" "data2 = save_results label r2 data1"
    using assms load_text_ok [of f2 e p2 r2 l2 data1] by auto
  show ?thesis
    using assms(5,6,9,10) by (simp add: 1 2 stat_of_save_results)
qed


theorem reregistration_keeps_omitted_key_witness:
  "load_text env1 (Some ''b.txt'') (Some ''doc'') (Callable parser1) reg1
     = (None, save_results ''doc'' [(''wordcount'', Counts [(''dog'', 2)]), (''length'', Text ''2'')] reg1)
   \<and> stat_of (snd (load_text env1 (Some ''c.txt'') (Some ''doc'') (Callable parser2)
        (snd (load_text env1 (Some ''b.txt'') (Some ''doc'') (Callable parser1) reg1)))) ''length'' ''doc''
      = Some (Text ''2'')
   \<and> stat_of (snd (load_text env1 (Some ''c.txt'') (Some ''doc'') (Callable parser2)
        (snd (load_text env1 (Some ''b.txt'') (Some ''doc'') (Callable parser1) reg1)))) ''wordcount'' ''doc''
      = Some (Counts [(''park'', 1)])"
proof -
  let ?r1 = "[(''wordcount'', Counts [(''dog'', 2)]), (''length'', Text ''2'')] :: int results"
  let ?r2 = "[(''wordcount'', Counts [(''park'', 1)])] :: int results"
  let ?d1 = "snd (load_text env1 (Some ''b.txt'') (Some ''doc'') (Callable parser1) reg1)"
  let ?d2 = "snd (load_text env1 (Some ''c.txt'') (Some ''doc'') (Callable parser2) ?d1)"
  have a: "load_text env1 (Some ''b.txt'') (Some ''doc'') (Callable parser1) reg1 = (None, ?d1)"
    by (simp add: load_text_def NLPError_load_text_def parser1_def)
  have b: "load_text env1 (Some ''c.txt'') (Some ''doc'') (Callable parser2) ?d1 = (None, ?d2)"
    by (simp add: load_text_def NLPError_load_text_def parser2_def)
  have c: "load_text env1 (Some ''b.txt'') (Some ''doc'') (Callable parser1) reg1
     = (None, save_results ''doc'' ?r1 reg1)"
    by (simp add: load_text_def NLPError_load_text_def parser1_def)
  have "stat_of ?d2 ''length'' ''doc'' = Some (Text ''2'')
    \<and> (\<forall>k' v'. map_of ?r2 k' = Some v' \<longrightarrow> stat_of ?d2 k' ''doc'' = Some v')"
    using reregistration_keeps_omitted_key
          [where ?f1.0 = "''b.txt''" and ?f2.0 = "''c.txt''" and e = env1
             and ?p1.0 = "Callable parser1" and ?p2.0 = "Callable parser2"
             and ?r1.0 = ?r1 and ?r2.0 = ?r2 and ?l1.0 = "Some ''doc''" and ?l2.0 = "Some ''doc''"
             and data = reg1 and label = "''doc''" and k = "''length''" and v = "Text ''2''",
           OF _ _ _ _ _ _ _ _ _ _ a b]
    by (simp add: parser_result_def parser1_def parser2_def is_dict_def label_of_def)
  then have "stat_of ?d2 ''length'' ''doc'' = Some (Text ''2'')"
    and "stat_of ?d2 ''wordcount'' ''doc'' = Some (Counts [(''park'', 1)])"
    by simp_all
  with c show ?thesis by blast
qed


text \<open>
  C4, as stated, fails: a label registered with a parser that returns the statistic
  \<open>length\<close>, then registered again with the default parser, keeps its \<open>length\<close>, which
  is not in the second result.
\<close>

theorem full_replacement_counterexample:
  "load_text env1 (Some ''a.txt'') (Some ''doc'') NoParser
       (snd (load_text env1 (Some ''b.txt'') (Some ''doc'') (Callable parser1) []))
     = (None,
        [(''wordcount'', [(''doc'', Counts [(''cat'', 1), (''sat'', 1), (''mat'', 1)])]),
         (''length'', [(''doc'', Text ''2'')]),
         (''sentiment'', [(''doc'', Scores [(''neg'', 0), (''neu'', 1), (''pos'', 0), (''compound'', 0)])]),
         (''raw_text'', [(''doc'', Text ''cat sat mat'')])])
   \<and> parser_result env1 NoParser ''a.txt''
     = Inr [(''wordcount'', Counts [(''cat'', 1), (''sat'', 1), (''mat'', 1)]),
            (''sentiment'', Scores [(''neg'', 0), (''neu'', 1), (''pos'', 0), (''compound'', 0)]),
            (''raw_text'', Text ''cat sat mat'')]
   \<and> stat_of (snd (load_text env1 (Some ''a.txt'') (Some ''doc'') NoParser
          (snd (load_text env1 (Some ''b.txt'') (Some ''doc'') (Callable parser1) []))))
        ''length'' ''doc'' = Some (Text ''2'')"
  by code_simp

text \<open>
  C4, amended. A registration that succeeds stores, under every statistic key of the
  parser's result, the result's value for the label. When the result has every key under
  which the label was stored before the call (so for a label registered twice by the
  default parser), the label's statistics after the call are exactly the result: nothing of
  an earlier registration is kept.
\<close>

theorem reregistration_replaces_result_keys:
  assumes "fname \<noteq> []" and "parser_result e parser fname = Inr r" and "is_dict r"
    and "label_of fname lab = label"
  shows "fst (load_text e (Some fname) lab parser data) = None
    \<and> (\<forall>k v. map_of r k = Some v \<longrightarrow>
          stat_of (snd (load_text e (Some fname) lab parser data)) k label = Some v)
    \<and> ((\<forall>k. stat_of data k label \<noteq> None \<longrightarrow> map_of r k \<noteq> None) \<longrightarrow>
          (\<forall>k. stat_of (snd (load_text e (Some fname) lab parser data)) k label = map_of r k))"
proof -
  have l: "load_text e (Some fname) lab parser data = (None, save_results label r data)"
    using assms load_text_ok [of fname e parser r lab data] by simp
  have "stat_of (save_results label r data) k label = map_of r k"
    if "\<forall>k. stat_of data k label \<noteq> None \<longrightarrow> map_of r k \<noteq> None" for k
    using that assms(3) by (auto simp: stat_of_save_results split: option.splits)
  then show ?thesis
    using assms(3) by (simp add: l stat_of_save_results)
qed

theorem reregistration_replaces_result_keys_witness:
  "parser_result env1 NoParser ''a.txt''
     = Inr [(''wordcount'', Counts [(''cat'', 1), (''sat'', 1), (''mat'', 1)]),
            (''sentiment'', Scores [(''neg'', 0), (''neu'', 1), (''pos'', 0), (''compound'', 0)]),
            (''raw_text'', Text ''cat sat mat'')]
   \<and> fst (load_text env1 (Some ''a.txt'') None NoParser reg1) = None
   \<and> stat_of (snd (load_text env1 (Some ''a.txt'') None NoParser reg1)) ''wordcount'' ''a.txt''
       = Some (Counts [(''cat'', 1), (''sat'', 1), (''mat'', 1)])
   \<and> stat_of (snd (load_text env1 (Some ''a.txt'') None NoParser reg1)) ''length'' ''a.txt'' = None"
proof -
  let ?r = "[(''wordcount'', Counts [(''cat'', 1), (''sat'', 1), (''mat'', 1)]),
            (''sentiment'', Scores [(''neg'', 0), (''neu'', 1), (''pos'', 0), (''compound'', 0)]),
            (''raw_text'', Text ''cat sat mat'')] :: int results"
  have p: "parser_result env1 NoParser ''a.txt'' = Inr ?r"
    by code_simp
  have d: "is_dict ?r"
    by (simp add: is_dict_def)
  have s: "\<forall>k. stat_of reg1 k ''a.txt'' \<noteq> None \<longrightarrow> map_of ?r k \<noteq> None"
    by (simp add: stat_of_def reg1_def)
  have "fst (load_text env1 (Some ''a.txt'') None NoParser reg1) = None
    \<and> (\<forall>k. stat_of (snd (load_text env1 (Some ''a.txt'') None NoParser reg1)) k ''a.txt'' = map_of ?r k)"
    using reregistration_replaces_result_keys
      [where fname = "''a.txt''" and e = env1 and parser = NoParser and r = ?r and lab = None
         and label = "''a.txt''" and data = reg1, OF _ p d] s
    by (simp add: label_of_def)
  then show ?thesis using p by simp
qed

subsection \<open>The loop of get\_wordcount\<close>

lemma setitem_fresh: "k \<notin> fst ` set d \<Longrightarrow> setitem k v d = d @ [(k, v)]"
  by (induction d) auto

lemma setitem_middle:
  "k \<notin> fst ` set xs \<Longrightarrow> setitem k v (xs @ (k, u) # ys) = xs @ (k, v) # ys"
  by (induction xs) auto

lemma map_of_middle:
  "k \<notin> fst ` set xs \<Longrightarrow> map_of (xs @ (k, u) # ys) k = Some u"
  by (induction xs) auto

text \<open>
  On a dictionary with distinct labels whose values the body accepts, the loop replaces
  every value by the body's result and keeps the labels in place.
\<close>

lemma filter_loop_map:
  assumes "distinct (map fst (xs @ ys))" and "\<forall>(l, v)\<in>set ys. body v = Inr (g v)"
  shows "filter_loop body (map fst ys) (xs @ ys) = (None, xs @ map (\<lambda>(l, v). (l, g v)) ys)"
  using assms
proof (induction ys arbitrary: xs)
  case Nil
  show ?case by simp
next
  case (Cons p ys)
  obtain l v where p: "p = (l, v)" by (cases p)
  from Cons.prems have fresh: "l \<notin> fst ` set xs" and b: "body v = Inr (g v)"
    by (auto simp: p)
  have d: "distinct (map fst ((xs @ [(l, g v)]) @ ys))"
    using Cons.prems(1) by (auto simp: p)
  have r: "\<forall>(l, v)\<in>set ys. body v = Inr (g v)"
    using Cons.prems(2) by simp
  have "filter_loop body (map fst (p # ys)) (xs @ p # ys)
      = filter_loop body (map fst ys) ((xs @ [(l, g v)]) @ ys)"
    by (simp add: p map_of_middle [OF fresh] b setitem_middle [OF fresh] del: map_of_append)
  also have "\<dots> = (None, (xs @ [(l, g v)]) @ map (\<lambda>(l, v). (l, g v)) ys)"
    by (rule Cons.IH [OF d r])
  finally show ?case by (simp add: p)
qed

lemma wordcounts_getitem:
  "getitem_default ''wordcount'' data = (wordcounts data, snd (getitem_default ''wordcount'' data))"
  by (simp add: getitem_default_def wordcounts_def split: option.splits)

lemma wordcounts_setitem:
  "wordcounts (setitem ''wordcount'' wd data) = wd"
  by (simp add: wordcounts_def map_of_setitem)

lemma get_wordcount_map:
  assumes "check_get_wordcount e word_list k = None"
    and "is_dict (wordcounts data)"
    and "\<forall>(l, v)\<in>set (wordcounts data).
           (case word_list of None \<Rightarrow> top_stat k v | Some ws \<Rightarrow> select_stat ws v) = Inr (g v)"
  shows "fst (get_wordcount e word_list k data) = None
    \<and> wordcounts (snd (get_wordcount e word_list k data)) = map (\<lambda>(l, v). (l, g v)) (wordcounts data)"
proof -
  let ?wd = "wordcounts data"
  let ?body = "case word_list of None \<Rightarrow> top_stat k | Some ws \<Rightarrow> select_stat ws"
  have b: "\<forall>(l, v)\<in>set ?wd. ?body v = Inr (g v)"
    using assms(3) by (cases word_list) auto
  have d: "distinct (map fst ([] @ ?wd))"
    using assms(2) by (simp add: is_dict_def)
  have loop: "filter_loop ?body (map fst ?wd) ?wd = (None, map (\<lambda>(l, v). (l, g v)) ?wd)"
    using filter_loop_map [OF d b] by simp
  have "get_wordcount e word_list k data
      = (None, setitem ''wordcount'' (map (\<lambda>(l, v). (l, g v)) ?wd)
                 (snd (getitem_default ''wordcount'' data)))"
    using loop assms(1)
    by (subst get_wordcount_def, subst wordcounts_getitem) (cases word_list; simp)
  then show ?thesis by (simp add: wordcounts_setitem)
qed


subsection \<open>The k largest counts\<close>

lemma foldl_setitem_fresh:
  "distinct (map fst (acc @ xs)) \<Longrightarrow> foldl (\<lambda>d (k, v). setitem k v d) acc xs = acc @ xs"
proof (induction xs arbitrary: acc)
  case Nil
  show ?case by simp
next
  case (Cons p xs)
  obtain k v where p: "p = (k, v)" by (cases p)
  from Cons.prems have "k \<notin> fst ` set acc" by (auto simp: p)
  then have s: "setitem k v acc = acc @ [(k, v)]" by (rule setitem_fresh)
  have "distinct (map fst ((acc @ [(k, v)]) @ xs))" using Cons.prems by (simp add: p)
  from Cons.IH [OF this] show ?case by (simp add: p s)
qed

lemma dict_of_dict: "is_dict xs \<Longrightarrow> dict_of xs = xs"
  using foldl_setitem_fresh [of "[]" xs] by (simp add: dict_of_def is_dict_def)

lemma set_sorted_reverse: "set (sorted_reverse key xs) = set xs"
  by (simp add: sorted_reverse_def)

lemma length_sorted_reverse: "length (sorted_reverse key xs) = length xs"
  by (simp add: sorted_reverse_def)

lemma is_dict_sorted_reverse: "is_dict xs \<Longrightarrow> is_dict (sorted_reverse key xs)"
  by (simp add: is_dict_def distinct_map sorted_reverse_def)

lemma is_dict_take: "is_dict xs \<Longrightarrow> is_dict (take n xs)"
  by (simp add: is_dict_def take_map [symmetric])

text \<open>The sorted list is in descending order of the key.\<close>

lemma sorted_reverse_descending:
  "sorted_wrt (\<lambda>x y. key y \<le> key x) (sorted_reverse key xs)"
proof -
  have "sorted (map key (sort_key key (rev xs)))" by simp
  then have "sorted_wrt (\<lambda>x y. key x \<le> key y) (sort_key key (rev xs))"
    by (simp add: sorted_wrt_map)
  then show ?thesis by (simp add: sorted_reverse_def sorted_wrt_rev)
qed

text \<open>The sort is stable: entries with the same key keep the order they had.\<close>

lemma sorted_reverse_stable:
  "filter (\<lambda>x. key x = c) (sorted_reverse key xs) = filter (\<lambda>x. key x = c) xs"
proof -
  have "filter (\<lambda>x. key x = c) (sorted_reverse key xs)
      = rev (filter (\<lambda>x. key x = c) (sort_key key (rev xs)))"
    by (simp add: sorted_reverse_def rev_filter)
  also have "\<dots> = rev (filter (\<lambda>x. key x = c) (rev xs))"
    by (simp only: sort_key_stable)
  also have "\<dots> = filter (\<lambda>x. key x = c) xs"
    by (simp add: rev_filter)
  finally show ?thesis .
qed

lemma before_in_members: "before_in xs x y \<Longrightarrow> x \<in> set xs \<and> y \<in> set xs"
  by (induction xs) (auto split: if_splits)

lemma before_in_append:
  "x \<in> set as \<Longrightarrow> y \<in> set bs \<Longrightarrow> before_in (as @ bs) x y"
  by (induction as) auto

lemma before_in_filter:
  "before_in xs x y \<Longrightarrow> P x \<Longrightarrow> P y \<Longrightarrow> before_in (filter P xs) x y"
  by (induction xs) (auto split: if_splits)

lemma before_in_unfilter:
  "before_in (filter P xs) x y \<Longrightarrow> before_in xs x y"
proof (induction xs)
  case Nil
  then show ?case by simp
next
  case (Cons z zs)
  show ?case
  proof (cases "P z")
    case True
    with Cons show ?thesis by (auto split: if_splits)
  next
    case False
    with Cons have b: "before_in zs x y" by simp
    then have "y \<in> set zs" by (simp add: before_in_members)
    with b show ?thesis by simp
  qed
qed

lemma slice_to_nonneg: "0 \<le> k \<Longrightarrow> slice_to k xs = take (nat k) xs"
  by (simp add: slice_to_def)

lemma top_items_take:
  assumes "is_dict m" and "0 \<le> k"
  shows "top_items k m = take (nat k) (sorted_reverse snd m)"
proof -
  have "is_dict (take (nat k) (sorted_reverse snd m))"
    using assms(1) by (simp add: is_dict_take is_dict_sorted_reverse)
  then show ?thesis
    using assms(2) by (simp add: top_items_def slice_to_nonneg dict_of_dict)
qed

text \<open>
  What is kept has the largest counts: an entry that is dropped has a smaller count than
  every entry that is kept, or the same count and a later place in the mapping.
\<close>

lemma take_sorted_reverse_largest:
  assumes "distinct m" and "x \<in> set (take n (sorted_reverse key m))"
    and "y \<in> set m" and "y \<notin> set (take n (sorted_reverse key m))"
  shows "key y < key x \<or> (key y = key x \<and> before_in m x y)"
proof -
  let ?s = "sorted_reverse key m"
  have s: "?s = take n ?s @ drop n ?s" by simp
  have "y \<in> set ?s" using assms(3) by (simp add: set_sorted_reverse)
  then have y: "y \<in> set (drop n ?s)"
    using assms(4) by (metis Un_iff s set_append)
  have "sorted_wrt (\<lambda>x y. key y \<le> key x) (take n ?s @ drop n ?s)"
    using sorted_reverse_descending [of key m] by simp
  then have le: "key y \<le> key x"
    using assms(2) y unfolding sorted_wrt_append by blast
  show ?thesis
  proof (cases "key y = key x")
    case False
    with le show ?thesis by simp
  next
    case True
    have "before_in (take n ?s @ drop n ?s) x y"
      using assms(2) y by (rule before_in_append)
    then have "before_in ?s x y" by simp
    then have "before_in (filter (\<lambda>z. key z = key x) ?s) x y"
      using True by (simp add: before_in_filter)
    then have "before_in (filter (\<lambda>z. key z = key x) m) x y"
      by (simp only: sorted_reverse_stable)
    then have "before_in m x y" by (rule before_in_unfilter)
    with True show ?thesis by simp
  qed
qed

lemma top_items_largest:
  assumes "is_dict m" and "0 \<le> k"
  shows "top_items k m = take (nat k) (sorted_reverse snd m)
    \<and> length (top_items k m) = min (nat k) (length m)
    \<and> is_dict (top_items k m)
    \<and> set (top_items k m) \<subseteq> set m
    \<and> (\<forall>x\<in>set (top_items k m). \<forall>y\<in>set m - set (top_items k m).
          snd y < snd x \<or> (snd y = snd x \<and> before_in m x y))"
proof -
  have t: "top_items k m = take (nat k) (sorted_reverse snd m)"
    using assms by (rule top_items_take)
  have d: "distinct m"
    using assms(1) by (simp add: is_dict_def distinct_map)
  have 1: "length (top_items k m) = min (nat k) (length m)"
    by (simp add: t length_sorted_reverse min.commute)
  have 2: "is_dict (top_items k m)"
    using assms(1) by (simp add: t is_dict_take is_dict_sorted_reverse)
  have 3: "set (top_items k m) \<subseteq> set m"
    using set_take_subset [of "nat k" "sorted_reverse snd m"] by (simp add: t set_sorted_reverse)
  have 4: "snd y < snd x \<or> (snd y = snd x \<and> before_in m x y)"
    if "x \<in> set (top_items k m)" and "y \<in> set m - set (top_items k m)" for x y
    using that take_sorted_reverse_largest [OF d, of x "nat k" snd y] by (simp add: t)
  show ?thesis using t 1 2 3 4 by blast
qed


subsection \<open>get\_wordcount\<close>

lemma wordcounts_ok_entry:
  assumes "wordcounts_ok data" and "(l, v) \<in> set (wordcounts data)"
  shows "\<exists>m. v = Counts m \<and> is_dict m"
  using assms by (auto simp: wordcounts_ok_def list_all_iff split: stat.splits)

lemma wordcounts_ok_lookup:
  assumes "wordcounts_ok data" and "map_of (wordcounts data) label = Some (Counts m)"
  shows "is_dict m"
  using wordcounts_ok_entry [OF assms(1) map_of_SomeD [OF assms(2)]] by simp

lemma map_of_map_values:
  "map_of (map (\<lambda>(l, v). (l, g v)) xs) label = map_option g (map_of xs label)"
  by (induction xs) auto

lemma keys_map_values: "map fst (map (\<lambda>(l, v). (l, g v)) xs) = map fst xs"
  by (induction xs) auto

text \<open>
  C2. In a registry whose word counts follow the data model, when the argument check
  passes, \<open>get_wordcount\<close> with no word list and a positive \<open>k\<close> returns normally and
  keeps every label; the mapping of a label becomes the first \<open>k\<close> entries of its prior
  mapping sorted by descending count. That mapping has \<open>min k (size of the prior mapping)\<close>
  entries, so at most \<open>k\<close>; each entry is an entry of the prior mapping (the word keeps
  its count); and every entry left out has a smaller count than every entry kept, or the
  same count and a later position in the prior mapping.
\<close>

theorem get_wordcount_top_k:
  assumes "wordcounts_ok data" and "check_get_wordcount e None k = None" and "0 < k"
    and "map_of (wordcounts data) label = Some (Counts m)"
  shows "fst (get_wordcount e None k data) = None
    \<and> map fst (wordcounts (snd (get_wordcount e None k data))) = map fst (wordcounts data)
    \<and> map_of (wordcounts (snd (get_wordcount e None k data))) label = Some (Counts (top_items k m))
    \<and> top_items k m = take (nat k) (sorted_reverse snd m)
    \<and> length (top_items k m) \<le> nat k
    \<and> length (top_items k m) = min (nat k) (length m)
    \<and> is_dict (top_items k m)
    \<and> set (top_items k m) \<subseteq> set m
    \<and> (\<forall>x\<in>set (top_items k m). \<forall>y\<in>set m - set (top_items k m).
          snd y < snd x \<or> (snd y = snd x \<and> before_in m x y))"
proof -
  define g :: "'a stat \<Rightarrow> 'a stat" where
    "g = (\<lambda>v. case v of Counts c \<Rightarrow> Counts (top_items k c)
                | Scores c \<Rightarrow> Scores (top_items k c) | Text s \<Rightarrow> Text s)"
  have body: "\<forall>(l, v)\<in>set (wordcounts data).
      (case None of None \<Rightarrow> top_stat k v | Some ws \<Rightarrow> select_stat ws v) = Inr (g v)"
    using wordcounts_ok_entry [OF assms(1)] by (fastforce simp: g_def)
  have d: "is_dict (wordcounts data)"
    using assms(1) by (simp add: wordcounts_ok_def)
  have r: "fst (get_wordcount e None k data) = None"
    "wordcounts (snd (get_wordcount e None k data)) = map (\<lambda>(l, v). (l, g v)) (wordcounts data)"
    using get_wordcount_map [OF assms(2) d body] by simp_all
  have labels: "map fst (wordcounts (snd (get_wordcount e None k data))) = map fst (wordcounts data)"
    by (simp only: r(2) keys_map_values)
  have entry: "map_of (wordcounts (snd (get_wordcount e None k data))) label = Some (Counts (top_items k m))"
    by (simp add: r(2) map_of_map_values assms(4) g_def)
  have m: "is_dict m"
    using assms(1,4) by (rule wordcounts_ok_lookup)
  have k: "0 \<le> k" using assms(3) by simp
  note top = top_items_largest [OF m k]
  have len: "length (top_items k m) \<le> nat k"
    using top by simp
  show ?thesis
    using r(1) labels entry top len by blast
qed

theorem get_wordcount_top_k_witness:
  "wordcounts_ok reg1
   \<and> check_get_wordcount env1 None 2 = None
   \<and> map_of (wordcounts reg1) ''a.txt'' = Some (Counts [(''cat'', 2), (''sat'', 1), (''mat'', 2), (''dog'', 3)])
   \<and> fst (get_wordcount env1 None 2 reg1) = None
   \<and> map_of (wordcounts (snd (get_wordcount env1 None 2 reg1))) ''a.txt''
       = Some (Counts [(''dog'', 3), (''cat'', 2)])"
proof -
  let ?m = "[(''cat'', 2), (''sat'', 1), (''mat'', 2), (''dog'', 3)] :: (string \<times> int) list"
  have ok: "wordcounts_ok reg1"
    by (simp add: wordcounts_ok_def wordcounts_def reg1_def is_dict_def)
  have ch: "check_get_wordcount env1 None 2 = None"
    by (simp add: env1_def)
  have a: "map_of (wordcounts reg1) ''a.txt'' = Some (Counts ?m)"
    by (simp add: wordcounts_def reg1_def)
  have t: "top_items 2 ?m = [(''dog'', 3), (''cat'', 2)]"
    by code_simp
  have "fst (get_wordcount env1 None 2 reg1) = None
    \<and> map_of (wordcounts (snd (get_wordcount env1 None 2 reg1))) ''a.txt'' = Some (Counts (top_items 2 ?m))"
    using get_wordcount_top_k [OF ok ch _ a] by simp
  then show ?thesis using ok ch a t by simp
qed

subsection \<open>The word-list branch\<close>

lemma select_loop_append:
  "distinct (map fst (temp @ m)) \<Longrightarrow>
     select_loop ws m temp = temp @ filter (\<lambda>(w, c). w \<in> set ws) m"
proof (induction m arbitrary: temp)
  case Nil
  show ?case by simp
next
  case (Cons p m)
  obtain w c where p: "p = (w, c)" by (cases p)
  from Cons.prems have fresh: "w \<notin> fst ` set temp" by (auto simp: p)
  show ?case
  proof (cases "w \<in> set ws")
    case True
    have "distinct (map fst ((temp @ [(w, c)]) @ m))" using Cons.prems by (simp add: p)
    from Cons.IH [OF this] show ?thesis
      using True by (simp add: p setitem_fresh [OF fresh])
  next
    case False
    have "distinct (map fst (temp @ m))" using Cons.prems by (simp add: p)
    from Cons.IH [OF this] show ?thesis
      using False by (simp add: p)
  qed
qed

lemma select_loop_filter:
  "is_dict m \<Longrightarrow> select_loop ws m [] = filter (\<lambda>(w, c). w \<in> set ws) m"
  using select_loop_append [of "[]" m ws] by (simp add: is_dict_def)

lemma map_of_filter_keys:
  "map_of (filter (\<lambda>(w, c). w \<in> S) m) w = (if w \<in> S then map_of m w else None)"
  by (induction m) auto

lemma select_loop_no_words: "select_loop [] m temp = temp"
  by (induction m arbitrary: temp) auto

lemma get_wordcount_ignores_k:
  assumes "check_get_wordcount e (Some ws) k = None" and "check_get_wordcount e (Some ws) k' = None"
  shows "get_wordcount e (Some ws) k' data = get_wordcount e (Some ws) k data"
  using assms by (simp add: get_wordcount_def)

text \<open>
  C3. In a registry whose word counts follow the data model, when the argument check
  passes, \<open>get_wordcount\<close> with the word list \<open>ws\<close> returns normally and keeps every
  label; the mapping of a label becomes the entries of its prior mapping whose word is in
  \<open>ws\<close>. Its keys are among the words of \<open>ws\<close> that are keys of the prior mapping, every
  word kept has its prior count, and any other \<open>k\<close> the argument check accepts gives the
  same result.
\<close>

theorem get_wordcount_word_list:
  assumes "wordcounts_ok data" and "check_get_wordcount e (Some ws) k = None"
    and "map_of (wordcounts data) label = Some (Counts m)"
  shows "fst (get_wordcount e (Some ws) k data) = None
    \<and> map fst (wordcounts (snd (get_wordcount e (Some ws) k data))) = map fst (wordcounts data)
    \<and> map_of (wordcounts (snd (get_wordcount e (Some ws) k data))) label
        = Some (Counts (filter (\<lambda>(w, c). w \<in> set ws) m))
    \<and> fst ` set (filter (\<lambda>(w, c). w \<in> set ws) m) \<subseteq> set ws \<inter> fst ` set m
    \<and> (\<forall>w c. map_of (filter (\<lambda>(w, c). w \<in> set ws) m) w = Some c \<longrightarrow> map_of m w = Some c)
    \<and> (\<forall>k'. check_get_wordcount e (Some ws) k' = None \<longrightarrow>
          get_wordcount e (Some ws) k' data = get_wordcount e (Some ws) k data)"
proof -
  define g :: "'a stat \<Rightarrow> 'a stat" where
    "g = (\<lambda>v. case v of Counts c \<Rightarrow> Counts (select_loop ws c [])
                | Scores c \<Rightarrow> Scores (select_loop ws c []) | Text s \<Rightarrow> Text s)"
  have body: "\<forall>(l, v)\<in>set (wordcounts data).
      (case Some ws of None \<Rightarrow> top_stat k v | Some ws \<Rightarrow> select_stat ws v) = Inr (g v)"
    using wordcounts_ok_entry [OF assms(1)] by (fastforce simp: g_def)
  have d: "is_dict (wordcounts data)"
    using assms(1) by (simp add: wordcounts_ok_def)
  have r: "fst (get_wordcount e (Some ws) k data) = None"
    "wordcounts (snd (get_wordcount e (Some ws) k data)) = map (\<lambda>(l, v). (l, g v)) (wordcounts data)"
    using get_wordcount_map [OF assms(2) d body] by simp_all
  have labels: "map fst (wordcounts (snd (get_wordcount e (Some ws) k data))) = map fst (wordcounts data)"
    by (simp only: r(2) keys_map_values)
  have m: "is_dict m"
    using assms(1,3) by (rule wordcounts_ok_lookup)
  have entry: "map_of (wordcounts (snd (get_wordcount e (Some ws) k data))) label
      = Some (Counts (filter (\<lambda>(w, c). w \<in> set ws) m))"
    by (simp add: r(2) map_of_map_values assms(3) g_def select_loop_filter [OF m])
  have keys: "fst ` set (filter (\<lambda>(w, c). w \<in> set ws) m) \<subseteq> set ws \<inter> fst ` set m"
    by auto
  have vals: "\<forall>w c. map_of (filter (\<lambda>(w, c). w \<in> set ws) m) w = Some c \<longrightarrow> map_of m w = Some c"
    by (simp add: map_of_filter_keys)
  have same: "\<forall>k'. check_get_wordcount e (Some ws) k' = None \<longrightarrow>
      get_wordcount e (Some ws) k' data = get_wordcount e (Some ws) k data"
    using assms(2) get_wordcount_ignores_k [of e ws k _ data] by blast
  show ?thesis
    using r(1) labels entry keys vals same by blast
qed

theorem get_wordcount_word_list_witness:
  "wordcounts_ok reg1
   \<and> check_get_wordcount env1 (Some [''dog'', ''cat'', ''zebra'']) 1 = None
   \<and> fst (get_wordcount env1 (Some [''dog'', ''cat'', ''zebra'']) 1 reg1) = None
   \<and> map_of (wordcounts (snd (get_wordcount env1 (Some [''dog'', ''cat'', ''zebra'']) 1 reg1))) ''a.txt''
       = Some (Counts [(''cat'', 2), (''dog'', 3)])
   \<and> get_wordcount env1 (Some [''dog'', ''cat'', ''zebra'']) 7 reg1
       = get_wordcount env1 (Some [''dog'', ''cat'', ''zebra'']) 1 reg1"
proof -
  let ?m = "[(''cat'', 2), (''sat'', 1), (''mat'', 2), (''dog'', 3)] :: (string \<times> int) list"
  let ?ws = "[''dog'', ''cat'', ''zebra'']"
  have ok: "wordcounts_ok reg1"
    by (simp add: wordcounts_ok_def wordcounts_def reg1_def is_dict_def)
  have ch: "check_get_wordcount env1 (Some ?ws) 1 = None"
    by (simp add: env1_def)
  have ch7: "check_get_wordcount env1 (Some ?ws) 7 = None"
    by (simp add: env1_def)
  have a: "map_of (wordcounts reg1) ''a.txt'' = Some (Counts ?m)"
    by (simp add: wordcounts_def reg1_def)
  have f: "filter (\<lambda>(w, c). w \<in> set ?ws) ?m = [(''cat'', 2), (''dog'', 3)]"
    by simp
  have "fst (get_wordcount env1 (Some ?ws) 1 reg1) = None
    \<and> map_of (wordcounts (snd (get_wordcount env1 (Some ?ws) 1 reg1))) ''a.txt''
        = Some (Counts (filter (\<lambda>(w, c). w \<in> set ?ws) ?m))
    \<and> get_wordcount env1 (Some ?ws) 7 reg1 = get_wordcount env1 (Some ?ws) 1 reg1"
    using get_wordcount_word_list [OF ok ch a] ch7 by blast
  then show ?thesis using ok ch f by simp
qed

text \<open>
  C10. An empty word list is not \<^verbatim>\<open>None\<close>, so \<open>get_wordcount\<close> takes the word-list
  branch: in a registry whose word counts follow the data model, when the argument check
  passes, the call returns normally and the mapping of every label becomes empty,
  whatever \<open>k\<close> is.
\<close>

theorem get_wordcount_empty_word_list:
  assumes "wordcounts_ok data" and "check_get_wordcount e (Some []) k = None"
  shows "fst (get_wordcount e (Some []) k data) = None
    \<and> wordcounts (snd (get_wordcount e (Some []) k data))
        = map (\<lambda>(l, v). (l, Counts [])) (wordcounts data)"
proof -
  define g :: "'a stat \<Rightarrow> 'a stat" where "g = (\<lambda>v. Counts [])"
  have body: "\<forall>(l, v)\<in>set (wordcounts data).
      (case Some [] of None \<Rightarrow> top_stat k v | Some ws \<Rightarrow> select_stat ws v) = Inr (g v)"
    using wordcounts_ok_entry [OF assms(1)] by (fastforce simp: g_def select_loop_no_words)
  have d: "is_dict (wordcounts data)"
    using assms(1) by (simp add: wordcounts_ok_def)
  show ?thesis
    using get_wordcount_map [OF assms(2) d body] by (simp add: g_def)
qed

theorem get_wordcount_empty_word_list_witness:
  "wordcounts_ok reg1
   \<and> check_get_wordcount env1 (Some []) 2 = None
   \<and> fst (get_wordcount env1 (Some []) 2 reg1) = None
   \<and> wordcounts (snd (get_wordcount env1 (Some []) 2 reg1))
       = [(''a.txt'', Counts []), (''b.txt'', Counts [])]
   \<and> wordcounts (snd (get_wordcount env1 None 2 reg1))
       = [(''a.txt'', Counts [(''dog'', 3), (''cat'', 2)]),
          (''b.txt'', Counts [(''dog'', 1), (''park'', 1)])]"
proof -
  have ok: "wordcounts_ok reg1"
    by (simp add: wordcounts_ok_def wordcounts_def reg1_def is_dict_def)
  have ch: "check_get_wordcount env1 (Some []) 2 = None"
    by (simp add: env1_def)
  have w: "wordcounts reg1
      = [(''a.txt'', Counts [(''cat'', 2), (''sat'', 1), (''mat'', 2), (''dog'', 3)]),
         (''b.txt'', Counts [(''dog'', 1), (''park'', 1)])]"
    by (simp add: wordcounts_def reg1_def)
  have n: "wordcounts (snd (get_wordcount env1 None 2 reg1))
       = [(''a.txt'', Counts [(''dog'', 3), (''cat'', 2)]),
          (''b.txt'', Counts [(''dog'', 1), (''park'', 1)])]"
    by code_simp
  show ?thesis
    using get_wordcount_empty_word_list [OF ok ch] ok ch n by (simp add: w)
qed

subsection \<open>What the calls leave unchanged\<close>

lemma map_of_getitem_default:
  "map_of (snd (getitem_default k data)) k' =
     (if k' = k \<and> map_of data k = None then Some [] else map_of data k')"
  by (auto simp: getitem_default_def map_add_def split: option.splits)

lemma getitem_default_present:
  "map_of data k \<noteq> None \<Longrightarrow> snd (getitem_default k data) = data"
  by (auto simp: getitem_default_def)

lemma get_wordcount_state:
  "snd (get_wordcount e word_list k data) = data
   \<or> (\<exists>wd. snd (get_wordcount e word_list k data)
             = setitem ''wordcount'' wd (snd (getitem_default ''wordcount'' data)))"
  by (subst (1 2) get_wordcount_def, subst (1 2) wordcounts_getitem)
    (auto split: option.splits prod.splits)

lemma get_wordcount_other_keys:
  assumes "key \<noteq> ''wordcount''"
  shows "map_of (snd (get_wordcount e word_list k data)) key = map_of data key"
  using get_wordcount_state [of e word_list k data] assms
  by (auto simp: map_of_setitem map_of_getitem_default)

text \<open>
  C8. \<open>get_wordcount\<close> writes only under \<^verbatim>\<open>"wordcount"\<close>: whatever the registry, the word
  list and \<open>k\<close> are, and whether or not the call raises, the mapping stored under any
  other statistic key is the one stored before the call.
\<close>

theorem get_wordcount_frame:
  "key \<noteq> ''wordcount'' \<Longrightarrow>
     map_of (snd (get_wordcount e word_list k data)) key = map_of data key"
  by (rule get_wordcount_other_keys)

theorem get_wordcount_frame_witness:
  "map_of (snd (get_wordcount env1 None 1 reg1)) ''sentiment'' = map_of reg1 ''sentiment''
   \<and> map_of (snd (get_wordcount env1 (Some [''dog'']) 1 reg1)) ''raw_text'' = map_of reg1 ''raw_text''
   \<and> map_of (snd (get_wordcount env1 None 0 reg1)) ''raw_text'' = map_of reg1 ''raw_text''"
  using get_wordcount_frame [of "''sentiment''" env1 None 1 reg1]
    get_wordcount_frame [of "''raw_text''" env1 "Some [''dog'']" 1 reg1]
    get_wordcount_frame [of "''raw_text''" env1 None 0 reg1]
  by simp

subsection \<open>The adapters\<close>

lemma wordcount_sankey_state:
  "snd (wordcount_sankey e word_list k data) = snd (get_wordcount e word_list k data)"
proof (cases "get_wordcount e word_list k data")
  case (Pair raised data')
  show ?thesis
  proof (cases raised)
    case (Some err)
    with Pair show ?thesis by (simp add: wordcount_sankey_def)
  next
    case None
    have "data' = snd (get_wordcount e word_list k data)" using Pair by simp
    moreover have "check_get_wordcount e word_list k = None"
      using Pair None by (auto simp: get_wordcount_def split: option.splits)
    ultimately have "\<exists>wd d. data' = setitem ''wordcount'' wd d"
      by (subst (asm) get_wordcount_def) (auto split: prod.splits)
    then have "map_of data' ''wordcount'' \<noteq> None"
      by (auto simp: map_of_setitem)
    then have "snd (getitem_default ''wordcount'' data') = data'"
      by (rule getitem_default_present)
    with Pair None show ?thesis
      by (auto simp: wordcount_sankey_def split: prod.splits)
  qed
qed

lemma second_viz_state: "snd (second_viz data) = snd (getitem_default ''raw_text'' data)"
  by (simp add: second_viz_def split: prod.splits)

lemma third_viz_state: "snd (third_viz data) = snd (getitem_default ''sentiment'' data)"
  by (simp add: third_viz_def split: prod.splits sum.splits)

text \<open>
  C1, as stated, fails: the flow-diagram adapter filters the registry before it draws.
\<close>

theorem adapters_counterexample:
  "wordcount_sankey env1 None 1 reg1 =
     (Inr [(''a.txt'', ''dog''), (''a.txt'', ''dog''), (''a.txt'', ''dog''), (''b.txt'', ''dog'')],
      [(''wordcount'',
          [(''a.txt'', Counts [(''dog'', 3)]), (''b.txt'', Counts [(''dog'', 1)])]),
       (''sentiment'',
          [(''a.txt'', Scores [(''neg'', 0), (''neu'', 1), (''pos'', 0), (''compound'', 0)]),
           (''b.txt'', Scores [(''neg'', 0), (''neu'', 1), (''pos'', 0), (''compound'', 0)])]),
       (''raw_text'',
          [(''a.txt'', Text ''cat sat mat dog dog cat mat dog''),
           (''b.txt'', Text ''dog park'')])])
   \<and> snd (wordcount_sankey env1 None 1 reg1) \<noteq> reg1"
  by code_simp

text \<open>
  C1, amended. The word-cloud adapter and the sentiment bar-chart adapter change no
  statistic of any document: they leave the registry as it is when the statistic key they
  read (\<^verbatim>\<open>"raw_text"\<close>, \<^verbatim>\<open>"sentiment"\<close>) is present, and otherwise only insert that key
  with an empty mapping. The flow-diagram adapter leaves the registry as \<open>get_wordcount\<close>
  with the same arguments leaves it, so with every statistic key other than
  \<^verbatim>\<open>"wordcount"\<close> unchanged.
\<close>

theorem adapters_frame:
  "snd (wordcount_sankey e word_list k data) = snd (get_wordcount e word_list k data)
   \<and> (\<forall>key. key \<noteq> ''wordcount'' \<longrightarrow>
         map_of (snd (wordcount_sankey e word_list k data)) key = map_of data key)
   \<and> (map_of data ''raw_text'' \<noteq> None \<longrightarrow> snd (second_viz data) = data)
   \<and> (\<forall>key. map_of (snd (second_viz data)) key =
         (if key = ''raw_text'' \<and> map_of data ''raw_text'' = None then Some [] else map_of data key))
   \<and> (map_of data ''sentiment'' \<noteq> None \<longrightarrow> snd (third_viz data) = data)
   \<and> (\<forall>key. map_of (snd (third_viz data)) key =
         (if key = ''sentiment'' \<and> map_of data ''sentiment'' = None then Some [] else map_of data key))"
  by (simp add: wordcount_sankey_state get_wordcount_other_keys second_viz_state third_viz_state
      map_of_getitem_default getitem_default_present)

theorem adapters_frame_witness:
  "snd (second_viz reg1) = reg1
   \<and> snd (third_viz reg1) = reg1
   \<and> map_of (snd (wordcount_sankey env1 None 1 reg1)) ''raw_text'' = map_of reg1 ''raw_text''
   \<and> map_of (snd (wordcount_sankey env1 None 1 reg1)) ''sentiment'' = map_of reg1 ''sentiment''"
proof -
  note f = adapters_frame [of env1 None 1 reg1]
  have r: "map_of reg1 ''raw_text'' \<noteq> None" and s: "map_of reg1 ''sentiment'' \<noteq> None"
    by (simp_all add: reg1_def)
  have keys: "\<forall>key. key \<noteq> ''wordcount'' \<longrightarrow>
      map_of (snd (wordcount_sankey env1 None 1 reg1)) key = map_of reg1 key"
    by (rule f [THEN conjunct2, THEN conjunct1])
  have 1: "snd (second_viz reg1) = reg1"
    using f [THEN conjunct2, THEN conjunct2, THEN conjunct1] r by (rule mp)
  have 2: "snd (third_viz reg1) = reg1"
    using f [THEN conjunct2, THEN conjunct2, THEN conjunct2, THEN conjunct2, THEN conjunct1] s
    by (rule mp)
  have 3: "map_of (snd (wordcount_sankey env1 None 1 reg1)) ''raw_text'' = map_of reg1 ''raw_text''"
    using keys [rule_format, of "''raw_text''"] by simp
  have 4: "map_of (snd (wordcount_sankey env1 None 1 reg1)) ''sentiment'' = map_of reg1 ''sentiment''"
    using keys [rule_format, of "''sentiment''"] by simp
  show ?thesis
    using 1 2 3 4 by (intro conjI)
qed

end
